theory Spec2Isabelle
  imports Complex_Main "HOL-Library.Multiset"
begin

section \<open>Data model (backend/app/models.py)\<close>

text \<open>
  The SQLAlchemy rows are records. Only the columns read by \<^verbatim>\<open>ml/ranking.py\<close> and
  \<^verbatim>\<open>ml/embeddings.py\<close> are kept. Python floats and numpy arrays are modelled by
  real numbers and lists of reals: all statements below are about exact arithmetic.
  Columns that the code tests for truthiness (\<^verbatim>\<open>embedding\<close>, \<^verbatim>\<open>user_embedding\<close>,
  \<^verbatim>\<open>preferred_subreddits\<close>, \<^verbatim>\<open>post_age_hours\<close>, \<^verbatim>\<open>content\<close>) or compares in SQL
  (\<^verbatim>\<open>created_utc\<close>) keep their NULL as \<open>None\<close>; columns with a default are non-null.
\<close>

type_synonym vec = "real list"

record post =
  post_id :: string
  title :: string
  content :: "string option"
  subreddit :: string
  score :: int
  upvote_ratio :: real
  num_comments :: int
  is_video :: bool
  is_self :: bool
  nsfw :: bool
  created_utc :: "real option"
  post_age_hours :: "real option"
  embedding :: "vec option"

record user =
  user_id :: string
  user_embedding :: "vec option"
  preferred_subreddits :: "(string \<times> real) list option"
  exploration_rate :: real

record interaction =
  i_user_id :: string
  i_post_id :: string
  interaction_type :: string
  time_spent :: real

record db =
  posts :: "post list"
  users :: "user list"
  interactions :: "interaction list"

text \<open>
  The state of an \<^verbatim>\<open>EmbeddingManager\<close>: the dimension of the model's embeddings, the
  FAISS index \<^verbatim>\<open>IndexFlatIP(d)\<close> (None before any build or load), given by its
  dimension and the list of stored vectors in insertion order, and the dict from index
  positions to post ids.
\<close>

record faiss_index =
  dim :: nat
  vectors :: "vec list"

record manager =
  embedding_dim :: nat
  post_index :: "faiss_index option"
  post_id_map :: "(nat \<times> string) list"

datatype error = ShapeError | ZeroDivision | AttributeError

text \<open>\<^verbatim>\<open>db.query(T).filter_by(key=k).first()\<close>: the first row with that key, or None.\<close>

definition get_user :: "db \<Rightarrow> string \<Rightarrow> user option" where
  "get_user d uid = find (\<lambda>u. user_id u = uid) (users d)"

definition get_post :: "db \<Rightarrow> string \<Rightarrow> post option" where
  "get_post d pid = find (\<lambda>p. post_id p = pid) (posts d)"

text \<open>Assigning to a column of the row returned by \<^verbatim>\<open>first()\<close> and committing.\<close>

fun put_user_embedding :: "string \<Rightarrow> vec \<Rightarrow> user list \<Rightarrow> user list" where
  "put_user_embedding uid v [] = []"
| "put_user_embedding uid v (u # us) =
     (if user_id u = uid then u\<lparr>user_embedding := Some v\<rparr> # us
      else u # put_user_embedding uid v us)"

text \<open>Python truthiness of a JSON column holding a list: None and the empty list are false.\<close>

fun truthy :: "'a list option \<Rightarrow> bool" where
  "truthy None = False"
| "truthy (Some xs) = (xs \<noteq> [])"

section \<open>numpy on one-dimensional arrays\<close>

definition zeros :: "nat \<Rightarrow> vec" where
  "zeros n = replicate n 0"

definition scale :: "real \<Rightarrow> vec \<Rightarrow> vec" where
  "scale c v = map (\<lambda>x. c * x) v"

text \<open>
  Elementwise binary operation with numpy's broadcasting rule for one-dimensional
  operands: equal lengths, or one operand of length 1; any other pair of shapes raises.
\<close>

definition broadcast2 :: "(real \<Rightarrow> real \<Rightarrow> real) \<Rightarrow> vec \<Rightarrow> vec \<Rightarrow> error + vec" where
  "broadcast2 f a b =
     (if length a = length b then Inr (map2 f a b)
      else if length a = 1 then Inr (map (f (hd a)) b)
      else if length b = 1 then Inr (map (\<lambda>x. f x (hd b)) a)
      else Inl ShapeError)"

definition vadd :: "vec \<Rightarrow> vec \<Rightarrow> error + vec" where
  "vadd = broadcast2 (+)"

definition vsub :: "vec \<Rightarrow> vec \<Rightarrow> error + vec" where
  "vsub = broadcast2 (-)"

text \<open>\<^verbatim>\<open>np.dot\<close> of two one-dimensional arrays: the lengths must agree.\<close>

definition dot :: "vec \<Rightarrow> vec \<Rightarrow> error + real" where
  "dot a b = (if length a = length b then Inr (sum_list (map2 (*) a b)) else Inl ShapeError)"

text \<open>\<^verbatim>\<open>np.linalg.norm\<close>: the L2 norm.\<close>

definition l2norm :: "vec \<Rightarrow> real" where
  "l2norm v = sqrt (sum_list (map (\<lambda>x. x * x) v))"

text \<open>
  \<^verbatim>\<open>np.mean(vs, axis=0)\<close> of a non-empty list of vectors: the componentwise mean;
  rows of different lengths raise.
\<close>

definition mean0 :: "vec list \<Rightarrow> error + vec" where
  "mean0 vs =
     (if \<forall>v \<in> set vs. length v = length (hd vs)
      then Inr (map (\<lambda>i. sum_list (map (\<lambda>v. v ! i) vs) / real (length vs)) [0..<length (hd vs)])
      else Inl ShapeError)"

text \<open>
  Division of an array by a scalar. A zero divisor is made a fault of the model, so
  that the guard of the normalisation step below is visible in its result.
\<close>

definition vdiv :: "vec \<Rightarrow> real \<Rightarrow> error + vec" where
  "vdiv v n = (if n = 0 then Inl ZeroDivision else Inr (map (\<lambda>x. x / n) v))"

text \<open>
  The normalisation step, written inline in both update paths
  (\<^verbatim>\<open>generate_user_embedding\<close>, lines 201-204, and \<^verbatim>\<open>update_user_embedding_online\<close>,
  lines 245-248): \<^verbatim>\<open>norm = np.linalg.norm(v); if norm > 0: v = v / norm\<close>.
\<close>

definition normalize_l2 :: "vec \<Rightarrow> error + vec" where
  "normalize_l2 v = (let norm = l2norm v in if norm > 0 then vdiv v norm else Inr v)"

section \<open>Preference tracker (ml/embeddings.py)\<close>

text \<open>
  \<^verbatim>\<open>EmbeddingManager.update_user_embedding_online\<close>. The function returns nothing and
  mutates the user's row; the model returns the database after the call, or the error
  numpy raises on operands of incompatible shapes. \<open>m\<close> is the manager (\<^verbatim>\<open>self\<close>).
\<close>

definition update_user_embedding_online ::
  "manager \<Rightarrow> db \<Rightarrow> string \<Rightarrow> string \<Rightarrow> string \<Rightarrow> real \<Rightarrow> error + db" where
  "update_user_embedding_online m d uid pid itype learning_rate =
     (case get_user d uid of
        None \<Rightarrow> Inr d
      | Some u \<Rightarrow>
     (case get_post d pid of
        None \<Rightarrow> Inr d
      | Some p \<Rightarrow>
     (case embedding p of
        None \<Rightarrow> Inr d
      | Some post_embedding \<Rightarrow>
          if post_embedding = [] then Inr d
          else
            let user_embedding0 =
                  (case user_embedding u of
                     None \<Rightarrow> zeros (embedding_dim m)
                   | Some v \<Rightarrow> if v \<noteq> [] then v else zeros (embedding_dim m));
                moved =
                  (if itype = ''like'' then
                     vadd (scale (1 - learning_rate) user_embedding0) (scale learning_rate post_embedding)
                   else if itype = ''dislike'' then
                     vsub user_embedding0 (scale (learning_rate * 0.5) post_embedding)
                   else Inr user_embedding0)
            in (case moved of
                  Inl e \<Rightarrow> Inl e
                | Inr v \<Rightarrow>
                    (case normalize_l2 v of
                       Inl e \<Rightarrow> Inl e
                     | Inr w \<Rightarrow> Inr (d\<lparr>users := put_user_embedding uid w (users d)\<rparr>))))))"

text \<open>
  In-place \<^verbatim>\<open>a += b\<close> and \<^verbatim>\<open>a -= b\<close> on arrays: the result keeps the shape of
  \<open>a\<close>, so only \<open>b\<close> may be broadcast.
\<close>

definition inplace2 :: "(real \<Rightarrow> real \<Rightarrow> real) \<Rightarrow> vec \<Rightarrow> vec \<Rightarrow> error + vec" where
  "inplace2 f a b =
     (if length a = length b then Inr (map2 f a b)
      else if length b = 1 then Inr (map (\<lambda>x. f x (hd b)) a)
      else Inl ShapeError)"

text \<open>
  The embeddings collected by the two loops of \<^verbatim>\<open>generate_user_embedding\<close>: for each
  interaction whose post exists and has an embedding, that embedding, weighted by
  \<open>weight\<close> of the interaction.
\<close>

fun collect_embeddings :: "db \<Rightarrow> (interaction \<Rightarrow> real) \<Rightarrow> interaction list \<Rightarrow> vec list" where
  "collect_embeddings d weight [] = []"
| "collect_embeddings d weight (i # is) =
     (case get_post d (i_post_id i) of
        None \<Rightarrow> collect_embeddings d weight is
      | Some p \<Rightarrow>
          if truthy (embedding p)
          then scale (weight i) (the (embedding p)) # collect_embeddings d weight is
          else collect_embeddings d weight is)"

text \<open>
  \<^verbatim>\<open>EmbeddingManager.generate_user_embedding\<close>: the returned vector and the database
  after the call. The branch for a user without likes returns before the normalisation
  step and before the user's row is written.
\<close>

definition generate_user_embedding :: "manager \<Rightarrow> db \<Rightarrow> string \<Rightarrow> error + (vec \<times> db)" where
  "generate_user_embedding m d uid =
     (let liked_interactions =
            filter (\<lambda>i. i_user_id i = uid \<and> interaction_type i = ''like'') (interactions d)
      in if liked_interactions = [] then
           (let all_posts = take 100 (posts d);
                embeddings = map (\<lambda>p. the (embedding p)) (filter (\<lambda>p. truthy (embedding p)) all_posts)
            in if embeddings \<noteq> [] then
                 (case mean0 embeddings of Inl e \<Rightarrow> Inl e | Inr m \<Rightarrow> Inr (m, d))
               else Inr (zeros (embedding_dim m), d))
         else
           (let liked_embeddings =
                  collect_embeddings d (\<lambda>i. min (time_spent i / 30) 2) liked_interactions;
                disliked_interactions =
                  filter (\<lambda>i. i_user_id i = uid \<and> interaction_type i = ''dislike'') (interactions d);
                disliked_embeddings = collect_embeddings d (\<lambda>i. 1) disliked_interactions;
                e0 = zeros (embedding_dim m);
                e1 = (if liked_embeddings \<noteq> [] then
                        (case mean0 liked_embeddings of
                           Inl e \<Rightarrow> Inl e
                         | Inr m \<Rightarrow> inplace2 (+) e0 m)
                      else Inr e0);
                e2 = (case e1 of
                        Inl e \<Rightarrow> Inl e
                      | Inr v \<Rightarrow>
                          if disliked_embeddings \<noteq> [] then
                            (case mean0 disliked_embeddings of
                               Inl e \<Rightarrow> Inl e
                             | Inr m \<Rightarrow> inplace2 (-) v (scale 0.3 m))
                          else Inr v)
            in (case e2 of
                  Inl e \<Rightarrow> Inl e
                | Inr v \<Rightarrow>
                    (case normalize_l2 v of
                       Inl e \<Rightarrow> Inl e
                     | Inr w \<Rightarrow>
                         (case get_user d uid of
                            None \<Rightarrow> Inr (w, d)
                          | Some u \<Rightarrow> Inr (w, d\<lparr>users := put_user_embedding uid w (users d)\<rparr>))))))"

section \<open>Scorer (ml/ranking.py, score-candidates)\<close>

text \<open>
  The freshness term, lines 146-149:
  \<^verbatim>\<open>hours_old = post.post_age_hours if post.post_age_hours else 24\<close>. A float is false
  exactly when it is zero, and None is false.
\<close>

definition hours_old :: "post \<Rightarrow> real" where
  "hours_old p = (case post_age_hours p of None \<Rightarrow> 24 | Some h \<Rightarrow> if h \<noteq> 0 then h else 24)"

definition freshness_score :: "post \<Rightarrow> real" where
  "freshness_score p = max 0 (1 - hours_old p / 168)"

definition engagement_score :: "post \<Rightarrow> real" where
  "engagement_score p =
     (real_of_int (score p) / 1000) * 0.3 + (real_of_int (num_comments p) / 100) * 0.2
       + upvote_ratio p * 0.1"

text \<open>
  The score of one candidate (the body of the loop of \<^verbatim>\<open>score_candidates\<close>); \<open>u\<close> is the
  row of the user, if there is one. A Python dict is true when it is not empty.
\<close>

definition score_post :: "user option \<Rightarrow> post \<Rightarrow> error + real" where
  "score_post u p =
     (let s0 = (0 :: real);
          s1 = (case u of
                  None \<Rightarrow> Inr s0
                | Some usr \<Rightarrow>
                    if truthy (user_embedding usr) \<and> truthy (embedding p) then
                      (case dot (the (user_embedding usr)) (the (embedding p)) of
                         Inl e \<Rightarrow> Inl e
                       | Inr similarity \<Rightarrow> Inr (s0 + similarity * 0.4))
                    else Inr s0)
      in case s1 of
           Inl e \<Rightarrow> Inl e
         | Inr s \<Rightarrow>
             (let s2 = s + min (engagement_score p) 1.0 * 0.3;
                  s3 = s2 + freshness_score p * 0.2;
                  s4 = (case u of
                          None \<Rightarrow> s3
                        | Some usr \<Rightarrow>
                            if truthy (preferred_subreddits usr) then
                              (case map_of (the (preferred_subreddits usr)) (subreddit p) of
                                 None \<Rightarrow> s3 + 0 * 0.1
                               | Some subreddit_score \<Rightarrow> s3 + subreddit_score * 0.1)
                            else s3)
              in Inr s4))"

fun score_all :: "user option \<Rightarrow> post list \<Rightarrow> error + (post \<times> real) list" where
  "score_all u [] = Inr []"
| "score_all u (p # ps) =
     (case score_post u p of
        Inl e \<Rightarrow> Inl e
      | Inr s \<Rightarrow> (case score_all u ps of Inl e \<Rightarrow> Inl e | Inr rest \<Rightarrow> Inr ((p, s) # rest)))"

text \<open>
  \<^verbatim>\<open>scored_posts.sort(key=lambda x: x[1], reverse=True)\<close>: Python's sort is stable, also
  with \<^verbatim>\<open>reverse=True\<close>, and so is insertion sort on the negated key.
\<close>

definition score_candidates :: "db \<Rightarrow> string \<Rightarrow> post list \<Rightarrow> error + (post \<times> real) list" where
  "score_candidates d uid candidates =
     (case score_all (get_user d uid) candidates of
        Inl e \<Rightarrow> Inl e
      | Inr scored_posts \<Rightarrow> Inr (sort_key (\<lambda>x. - snd x) scored_posts))"

section \<open>SQL and Python helpers\<close>

text \<open>
  \<^verbatim>\<open>int(x)\<close> of a float truncates towards zero. The products the code passes to it
  (\<^verbatim>\<open>num_candidates * 0.4\<close>, \<^verbatim>\<open>num_items * exploration_rate\<close>) are taken in exact
  arithmetic.
\<close>

definition py_int :: "real \<Rightarrow> int" where
  "py_int x = (if 0 \<le> x then \<lfloor>x\<rfloor> else \<lceil>x\<rceil>)"

text \<open>
  \<^verbatim>\<open>ORDER BY key DESC\<close>. SQL leaves the order of rows with equal keys open; the model
  keeps them in table order (a stable sort), which is what the claims about ties refer
  to as catalog iteration order.
\<close>

definition order_by_desc :: "('a \<Rightarrow> real) \<Rightarrow> 'a list \<Rightarrow> 'a list" where
  "order_by_desc key rows = sort_key (\<lambda>r. - key r) rows"

text \<open>
  \<^verbatim>\<open>ORDER BY random()\<close>: the database draws one random number per row and sorts by it.
  The draw is the parameter \<open>rnd\<close>, so every statement holds for every draw.
\<close>

definition order_by_random :: "('a \<Rightarrow> nat) \<Rightarrow> 'a list \<Rightarrow> 'a list" where
  "order_by_random rnd rows = sort_key rnd rows"

text \<open>
  \<^verbatim>\<open>random.sample(population, k)\<close> for \<open>k\<close> up to the size of the population: \<open>k\<close>
  distinct members in random order, again by a draw per member.
\<close>

definition random_sample :: "(nat \<Rightarrow> nat) \<Rightarrow> nat list \<Rightarrow> nat \<Rightarrow> nat list" where
  "random_sample rnd population k = take k (sort_key rnd population)"

section \<open>Vector store (ml/embeddings.py)\<close>

text \<open>
  The two files written by \<^verbatim>\<open>save_index\<close> are the record \<open>disk\<close>. The embedding model
  is the parameter \<open>model\<close>. Failures of the database, the file system and the model are
  outside the model.
\<close>

record disk =
  index_file :: "faiss_index option"
  map_file :: "(nat \<times> string) list option"

datatype event = LogIndexNotBuilt | LoadedIndex | BuiltIndex | SavedIndex

text \<open>\<^verbatim>\<open>faiss.normalize_L2\<close>: each row is divided by its norm unless the norm is zero.\<close>

definition faiss_normalize_L2 :: "vec \<Rightarrow> vec" where
  "faiss_normalize_L2 v = (let n = l2norm v in if n > 0 then map (\<lambda>x. x / n) v else v)"

definition inner_product :: "vec \<Rightarrow> vec \<Rightarrow> real" where
  "inner_product a b = sum_list (map2 (*) a b)"

text \<open>
  \<^verbatim>\<open>index.search(query, k)\<close>: the positions of the \<open>k\<close> stored vectors of largest inner
  product with the query, best first, with their scores. When fewer than \<open>k\<close> vectors
  are stored FAISS pads the answer with position -1, which the caller's test
  \<^verbatim>\<open>idx in self.post_id_map\<close> drops; the padding is left out here. A query of another
  dimension than the index fails an assertion.
\<close>

definition faiss_search :: "faiss_index \<Rightarrow> vec \<Rightarrow> nat \<Rightarrow> error + (nat \<times> real) list" where
  "faiss_search ix query k =
     (if length query \<noteq> dim ix then Inl ShapeError
      else Inr (take k (order_by_desc snd
                  (zip [0..<length (vectors ix)] (map (inner_product query) (vectors ix))))))"

definition load_index :: "manager \<Rightarrow> disk \<Rightarrow> bool \<times> manager" where
  "load_index m dk =
     (case index_file dk of
        None \<Rightarrow> (False, m)
      | Some ix \<Rightarrow>
          (True, (case map_file dk of
                    None \<Rightarrow> m\<lparr>post_index := Some ix\<rparr>
                  | Some mp \<Rightarrow> m\<lparr>post_index := Some ix, post_id_map := mp\<rparr>)))"

text \<open>The text handed to the model: title, a full stop, and the first 500 characters of the content.\<close>

definition embedding_text :: "post \<Rightarrow> string" where
  "embedding_text p =
     title p @ ''. '' @ (case content p of None \<Rightarrow> [] | Some c \<Rightarrow> if c \<noteq> [] then take 500 c else [])"

text \<open>
  \<^verbatim>\<open>generate_post_embeddings\<close> with \<^verbatim>\<open>_build_faiss_index\<close> and \<^verbatim>\<open>save_index\<close>: every
  post gets the model's embedding of its text, the index is rebuilt from the normalised
  embeddings of all posts, and index and map are written to disk.
\<close>

definition generate_post_embeddings ::
  "(string \<Rightarrow> vec) \<Rightarrow> manager \<Rightarrow> disk \<Rightarrow> db \<Rightarrow> manager \<times> disk \<times> db" where
  "generate_post_embeddings model m dk d =
     (let ps = posts d;
          embeddings = map (\<lambda>p. model (embedding_text p)) ps;
          post_ids = map post_id ps;
          d' = d\<lparr>posts := map (\<lambda>p. p\<lparr>embedding := Some (model (embedding_text p))\<rparr>) ps\<rparr>;
          ix = \<lparr>dim = embedding_dim m, vectors = map faiss_normalize_L2 embeddings\<rparr>;
          mp = zip [0..<length post_ids] post_ids
      in (m\<lparr>post_index := Some ix, post_id_map := mp\<rparr>,
          \<lparr>index_file = Some ix, map_file = Some mp\<rparr>, d'))"

text \<open>
  \<^verbatim>\<open>find_similar_posts\<close>: the results, the log of what the call did, and the state
  after it. With no index in memory the call loads the saved index or, when there is
  none, builds one from all posts before it searches.
\<close>

definition find_similar_posts ::
  "(string \<Rightarrow> vec) \<Rightarrow> manager \<Rightarrow> disk \<Rightarrow> db \<Rightarrow> vec \<Rightarrow> nat \<Rightarrow>
     error + ((string \<times> real) list \<times> event list \<times> manager \<times> disk \<times> db)" where
  "find_similar_posts model m dk d query_embedding k =
     (let (events, m1, dk1, d1) =
            (if post_index m = None then
               (let (loaded, ml) = load_index m dk
                in if \<not> loaded then
                     (let (mb, dkb, db) = generate_post_embeddings model m dk d
                      in ([LogIndexNotBuilt, BuiltIndex, SavedIndex], mb, dkb, db))
                   else ([LogIndexNotBuilt, LoadedIndex], ml, dk, d))
             else ([], m, dk, d));
          query = faiss_normalize_L2 query_embedding
      in case post_index m1 of
           None \<Rightarrow> Inl AttributeError
         | Some ix \<Rightarrow>
             (case faiss_search ix query k of
                Inl e \<Rightarrow> Inl e
              | Inr hits \<Rightarrow>
                  Inr (map (\<lambda>(idx, sc). (the (map_of (post_id_map m1) idx), sc))
                         (filter (\<lambda>(idx, sc). map_of (post_id_map m1) idx \<noteq> None) hits),
                       events, m1, dk1, d1)))"

section \<open>Candidate generator (ml/ranking.py, get-candidates)\<close>

definition seen_post_ids :: "db \<Rightarrow> string \<Rightarrow> string set" where
  "seen_post_ids d uid = set (map i_post_id (filter (\<lambda>i. i_user_id i = uid) (interactions d)))"

text \<open>Strategy 1: the similar posts that are unseen and still in the catalog.\<close>

fun similarity_candidates :: "db \<Rightarrow> string set \<Rightarrow> (string \<times> real) list \<Rightarrow> post list" where
  "similarity_candidates d seen [] = []"
| "similarity_candidates d seen ((pid, sc) # rest) =
     (if pid \<notin> seen then
        (case get_post d pid of
           None \<Rightarrow> similarity_candidates d seen rest
         | Some p \<Rightarrow> p # similarity_candidates d seen rest)
      else similarity_candidates d seen rest)"

text \<open>
  Strategy 2: the score velocity \<^verbatim>\<open>score / (post_age_hours + 1)\<close> is NULL for a NULL
  age and for a zero divisor; SQLite sorts NULL last in descending order. A NULL
  \<^verbatim>\<open>created_utc\<close> fails the comparison with the cutoff.
\<close>

definition velocity :: "post \<Rightarrow> real option" where
  "velocity p =
     (case post_age_hours p of
        None \<Rightarrow> None
      | Some h \<Rightarrow> if h + 1 = 0 then None else Some (real_of_int (score p) / (h + 1)))"

definition trending_candidates :: "db \<Rightarrow> string set \<Rightarrow> real \<Rightarrow> nat \<Rightarrow> post list" where
  "trending_candidates d seen now k =
     (let trending_cutoff = now - 48 * 3600;
          rows = filter (\<lambda>p. (case created_utc p of None \<Rightarrow> False | Some t \<Rightarrow> t > trending_cutoff)
                              \<and> post_id p \<notin> seen) (posts d)
      in take k (order_by_desc (\<lambda>p. the (velocity p)) (filter (\<lambda>p. velocity p \<noteq> None) rows)
                 @ filter (\<lambda>p. velocity p = None) rows))"

text \<open>Strategy 3: up to 10 unseen posts of each of the three subreddits of largest weight.\<close>

definition subreddit_candidates :: "db \<Rightarrow> string set \<Rightarrow> user \<Rightarrow> post list" where
  "subreddit_candidates d seen u =
     (if truthy (preferred_subreddits u) then
        (let top_subreddits = take 3 (order_by_desc snd (the (preferred_subreddits u)))
         in concat (map (\<lambda>(sub, w).
              take 10 (order_by_desc (\<lambda>p. real_of_int (score p))
                (filter (\<lambda>p. subreddit p = sub \<and> post_id p \<notin> seen) (posts d)))) top_subreddits))
      else [])"

text \<open>Strategy 4: random unseen posts.\<close>

definition exploration_candidates :: "db \<Rightarrow> string set \<Rightarrow> (post \<Rightarrow> nat) \<Rightarrow> nat \<Rightarrow> post list" where
  "exploration_candidates d seen rnd k =
     take k (order_by_random rnd (filter (\<lambda>p. post_id p \<notin> seen) (posts d)))"

text \<open>Lines 103-109: the first occurrence of every post id is kept.\<close>

fun unique_candidates :: "string set \<Rightarrow> post list \<Rightarrow> post list" where
  "unique_candidates seen [] = []"
| "unique_candidates seen (p # ps) =
     (if post_id p \<notin> seen then p # unique_candidates (insert (post_id p) seen) ps
      else unique_candidates seen ps)"

text \<open>
  \<^verbatim>\<open>RankingPipeline.get_candidates\<close>: the pool and the state after the call (the
  similarity search may load or build the index). \<open>now\<close> is the clock, \<open>rnd\<close> the random
  draw of strategy 4.
\<close>

definition get_candidates ::
  "(string \<Rightarrow> vec) \<Rightarrow> real \<Rightarrow> (post \<Rightarrow> nat) \<Rightarrow> manager \<Rightarrow> disk \<Rightarrow> db \<Rightarrow> string \<Rightarrow> nat \<Rightarrow>
     error + (post list \<times> manager \<times> disk \<times> db)" where
  "get_candidates model now rnd m dk d uid num_candidates =
     (case get_user d uid of
        None \<Rightarrow>
          Inr (take num_candidates (order_by_desc (\<lambda>p. real_of_int (score p)) (posts d)), m, dk, d)
      | Some u \<Rightarrow>
          (let seen = seen_post_ids d uid;
               similar =
                 (if truthy (user_embedding u) then
                    (case find_similar_posts model m dk d (the (user_embedding u))
                            (nat (py_int (real num_candidates * 0.4))) of
                       Inl e \<Rightarrow> Inl e
                     | Inr (similar_posts, events, m1, dk1, d1) \<Rightarrow>
                         Inr (similarity_candidates d1 seen similar_posts, m1, dk1, d1))
                  else Inr ([], m, dk, d))
           in case similar of
                Inl e \<Rightarrow> Inl e
              | Inr (sim, m1, dk1, d1) \<Rightarrow>
                  (let trending = trending_candidates d1 seen now (nat (py_int (real num_candidates * 0.3)));
                       preferred = subreddit_candidates d1 seen u;
                       exploration = exploration_candidates d1 seen rnd
                                       (nat (py_int (real num_candidates * 0.1)));
                       candidates = sim @ trending @ preferred @ exploration
                   in Inr (take num_candidates (unique_candidates {} candidates), m1, dk1, d1))))"

section \<open>Diversifier (ml/ranking.py, apply-business-rules)\<close>

datatype content_type = Text | Link | Video

definition content_type_of :: "post \<Rightarrow> content_type" where
  "content_type_of p = (if is_video p then Video else if is_self p then Text else Link)"

text \<open>
  The state of the greedy pass: the accepted posts, the dict \<^verbatim>\<open>subreddit_count\<close> (read
  with \<^verbatim>\<open>.get(key, 0)\<close>) and the dict \<^verbatim>\<open>content_types\<close>, which always has its three keys.
\<close>

record diversity =
  final_posts :: "post list"
  subreddit_count :: "string \<rightharpoonup> nat"
  content_types :: "content_type \<Rightarrow> nat"

definition diversity_init :: diversity where
  "diversity_init = \<lparr>final_posts = [], subreddit_count = Map.empty, content_types = (\<lambda>t. 0)\<rparr>"

definition count_get :: "(string \<rightharpoonup> nat) \<Rightarrow> string \<Rightarrow> nat" where
  "count_get m k = (case m k of None \<Rightarrow> 0 | Some c \<Rightarrow> c)"

text \<open>
  One candidate of the loop, lines 183-206: None when a \<^verbatim>\<open>continue\<close> skips the
  candidate, the new state when it is accepted. The three tests are in the order of
  the source.
\<close>

definition consider_post :: "int \<Rightarrow> diversity \<Rightarrow> post \<Rightarrow> diversity option" where
  "consider_post num_items st p =
     (if count_get (subreddit_count st) (subreddit p) \<ge> 2 then None
      else if int (content_types st (content_type_of p)) \<ge> num_items div 2 then None
      else if nsfw p then None
      else Some \<lparr>final_posts = final_posts st @ [p],
                 subreddit_count = (subreddit_count st)
                   (subreddit p \<mapsto> count_get (subreddit_count st) (subreddit p) + 1),
                 content_types = (content_types st)
                   (content_type_of p := content_types st (content_type_of p) + 1)\<rparr>)"

text \<open>The loop, with its \<^verbatim>\<open>break\<close> once \<^verbatim>\<open>num_items\<close> posts are accepted.\<close>

fun select_posts :: "int \<Rightarrow> (post \<times> real) list \<Rightarrow> diversity \<Rightarrow> diversity" where
  "select_posts num_items [] st = st"
| "select_posts num_items ((p, sc) # rest) st =
     (case consider_post num_items st p of
        None \<Rightarrow> select_posts num_items rest st
      | Some st' \<Rightarrow>
          if int (length (final_posts st')) \<ge> num_items then st'
          else select_posts num_items rest st')"

text \<open>The exploration substitution, lines 225-227.\<close>

fun substitute :: "post list \<Rightarrow> (nat \<times> post) list \<Rightarrow> post list" where
  "substitute fp [] = fp"
| "substitute fp ((idx, exp_post) # rest) =
     (if idx < length fp then substitute (fp[idx := exp_post]) rest else substitute fp rest)"

text \<open>
  \<^verbatim>\<open>RankingPipeline.apply_business_rules\<close>. \<open>rnd_idx\<close> is the draw of
  \<^verbatim>\<open>random.sample\<close>, \<open>rnd_post\<close> the draw of \<^verbatim>\<open>ORDER BY random()\<close>.
\<close>

definition num_exploration :: "db \<Rightarrow> string \<Rightarrow> int \<Rightarrow> int" where
  "num_exploration d uid num_items =
     py_int (real_of_int num_items *
       (case get_user d uid of None \<Rightarrow> 0.5 | Some u \<Rightarrow> exploration_rate u))"

definition apply_business_rules ::
  "(nat \<Rightarrow> nat) \<Rightarrow> (post \<Rightarrow> nat) \<Rightarrow> db \<Rightarrow> (post \<times> real) list \<Rightarrow> string \<Rightarrow> int \<Rightarrow> post list" where
  "apply_business_rules rnd_idx rnd_post d scored_posts uid num_items =
     (let fp = final_posts (select_posts num_items scored_posts diversity_init);
          ne = num_exploration d uid num_items
      in if ne > 0 \<and> int (length fp) > ne then
           (let exploration_indices =
                  random_sample rnd_idx [length fp - nat ne ..< length fp] (nat ne);
                exploration_posts = take (nat ne) (order_by_random rnd_post (posts d))
            in substitute fp (zip exploration_indices exploration_posts))
         else fp)"

text \<open>The number of accepted posts of a category and of a content-type bucket.\<close>

definition category_size :: "post list \<Rightarrow> string \<Rightarrow> nat" where
  "category_size fp c = length (filter (\<lambda>p. subreddit p = c) fp)"

definition bucket_size :: "post list \<Rightarrow> content_type \<Rightarrow> nat" where
  "bucket_size fp t = length (filter (\<lambda>p. content_type_of p = t) fp)"

text \<open>
  The greedy pass as section 4.5 of the specification words it, over the accepted list
  alone and with the per-bucket cap as the parameter \<open>cap\<close>: drop an unsafe item; skip
  an item whose category has 2 accepted items; skip an item whose bucket has \<open>cap\<close>
  accepted items; accept otherwise, and stop once \<open>requested_count\<close> items are accepted.
\<close>

fun greedy_pass :: "int \<Rightarrow> int \<Rightarrow> (post \<times> real) list \<Rightarrow> post list \<Rightarrow> post list" where
  "greedy_pass cap requested_count [] accepted = accepted"
| "greedy_pass cap requested_count ((p, sc) # rest) accepted =
     (if nsfw p then greedy_pass cap requested_count rest accepted
      else if category_size accepted (subreddit p) \<ge> 2 then greedy_pass cap requested_count rest accepted
      else if int (bucket_size accepted (content_type_of p)) \<ge> cap
        then greedy_pass cap requested_count rest accepted
      else if int (length (accepted @ [p])) \<ge> requested_count then accepted @ [p]
      else greedy_pass cap requested_count rest (accepted @ [p]))"

text \<open>The two dicts of the loop count what the accepted list holds.\<close>

definition counts_agree :: "diversity \<Rightarrow> bool" where
  "counts_agree st \<longleftrightarrow>
     (\<forall>c. count_get (subreddit_count st) c = category_size (final_posts st) c) \<and>
     (\<forall>t. content_types st t = bucket_size (final_posts st) t)"

section \<open>Pipeline orchestrator (ml/ranking.py, get-recommendations)\<close>

text \<open>
  \<^verbatim>\<open>RankingPipeline.get_recommendations\<close>. Each returned dict is a projection of a post,
  so the model returns the posts themselves.
\<close>

definition get_recommendations ::
  "(string \<Rightarrow> vec) \<Rightarrow> real \<Rightarrow> (post \<Rightarrow> nat) \<Rightarrow> (nat \<Rightarrow> nat) \<Rightarrow> (post \<Rightarrow> nat) \<Rightarrow>
     manager \<Rightarrow> disk \<Rightarrow> db \<Rightarrow> string \<Rightarrow> int \<Rightarrow> error + (post list \<times> manager \<times> disk \<times> db)" where
  "get_recommendations model now rnd_cand rnd_idx rnd_post m dk d uid num_items =
     (case get_candidates model now rnd_cand m dk d uid 100 of
        Inl e \<Rightarrow> Inl e
      | Inr (candidates, m1, dk1, d1) \<Rightarrow>
          if candidates = [] then Inr ([], m1, dk1, d1)
          else
            (case score_candidates d1 uid candidates of
               Inl e \<Rightarrow> Inl e
             | Inr scored_posts \<Rightarrow>
                 Inr (apply_business_rules rnd_idx rnd_post d1 scored_posts uid num_items,
                      m1, dk1, d1)))"

section \<open>Rows used as concrete inputs\<close>

definition mk_post ::
  "string \<Rightarrow> string \<Rightarrow> int \<Rightarrow> bool \<Rightarrow> bool \<Rightarrow> bool \<Rightarrow> real option \<Rightarrow> vec option \<Rightarrow> post" where
  "mk_post pid sub sc video self unsafe age emb =
     \<lparr>post_id = pid, title = ''t'', content = None, subreddit = sub, score = sc,
      upvote_ratio = 1 / 2, num_comments = 0, is_video = video, is_self = self, nsfw = unsafe,
      created_utc = None, post_age_hours = age, embedding = emb\<rparr>"

definition mk_user :: "string \<Rightarrow> vec option \<Rightarrow> (string \<times> real) list option \<Rightarrow> real \<Rightarrow> user" where
  "mk_user uid emb prefs rate =
     \<lparr>user_id = uid, user_embedding = emb, preferred_subreddits = prefs, exploration_rate = rate\<rparr>"

definition mk_db :: "post list \<Rightarrow> user list \<Rightarrow> db" where
  "mk_db ps us = \<lparr>posts = ps, users = us, interactions = []\<rparr>"

definition mk_manager :: "nat \<Rightarrow> manager" where
  "mk_manager n = \<lparr>embedding_dim = n, post_index = None, post_id_map = []\<rparr>"

definition post_e1 :: post where
  "post_e1 = mk_post ''p1'' ''s'' 0 False True False None (Some [1, 0])"

definition post_e2 :: post where
  "post_e2 = mk_post ''p2'' ''s'' 0 False True False None (Some [0, 1])"



definition db_two_posts :: db where
  "db_two_posts = mk_db [post_e1, post_e2] [mk_user ''u1'' None None (1 / 2)]"

definition post_a1 :: post where
  "post_a1 = mk_post ''a1'' ''s'' 4 False True False None None"

definition post_a2 :: post where
  "post_a2 = mk_post ''a2'' ''s'' 3 False False False None None"

definition post_b1 :: post where
  "post_b1 = mk_post ''b1'' ''t'' 2 False True False None None"





text \<open>Two random draws: positions in increasing order, and unsafe posts first.\<close>

definition rnd_in_order :: "nat \<Rightarrow> nat" where
  "rnd_in_order i = i"

definition rnd_unsafe_first :: "post \<Rightarrow> nat" where
  "rnd_unsafe_first p = (if nsfw p then 0 else 1)"

definition interaction_seen :: interaction where
  "interaction_seen =
     \<lparr>i_user_id = ''u1'', i_post_id = ''a1'', interaction_type = ''click'', time_spent = 0\<rparr>"

definition db_known :: db where
  "db_known = \<lparr>posts = [post_a1, post_a2, post_b1],
               users = [mk_user ''u1'' (Some [1, 0]) (Some [(''s'', 1)]) (1 / 2)],
               interactions = [interaction_seen]\<rparr>"

text \<open>An embedding model that maps every text to the same unit vector, and an empty disk.\<close>

definition model_const :: "string \<Rightarrow> vec" where
  "model_const txt = [1, 0]"

definition disk_empty :: disk where
  "disk_empty = \<lparr>index_file = None, map_file = None\<rparr>"

text \<open>A catalog of ten safe text posts of one category, all of raw score 0.\<close>

definition ten_posts :: "post list" where
  "ten_posts = map (\<lambda>c. mk_post [c] ''s'' 0 False True False None None) ''abcdefghij''"

section \<open>Basic facts about the vector operations\<close>

lemma sum_squares_nonneg: "0 \<le> sum_list (map (\<lambda>x. x * x) (v :: vec))"
  by (induction v) auto

lemma l2norm_nonneg: "0 \<le> l2norm v"
  by (simp add: l2norm_def sum_squares_nonneg)

lemma sum_squares_zero_iff: "sum_list (map (\<lambda>x. x * x) (v :: vec)) = 0 \<longleftrightarrow> (\<forall>x \<in> set v. x = 0)"
proof (induction v)
  case Nil
  show ?case by simp
next
  case (Cons a v)
  have "a * a + sum_list (map (\<lambda>x. x * x) v) = 0 \<longleftrightarrow> a * a = 0 \<and> sum_list (map (\<lambda>x. x * x) v) = 0"
    using sum_squares_nonneg [of v] by (intro add_nonneg_eq_0_iff) auto
  with Cons show ?case by simp
qed

lemma l2norm_zero_iff: "l2norm v = 0 \<longleftrightarrow> (\<forall>x \<in> set v. x = 0)"
  by (simp add: l2norm_def sum_squares_zero_iff)

lemma l2norm_pos_iff: "0 < l2norm v \<longleftrightarrow> (\<exists>x \<in> set v. x \<noteq> 0)"
  using l2norm_nonneg [of v] l2norm_zero_iff [of v] by fastforce

lemma sum_squares_scale:
  "sum_list (map (\<lambda>x. x * x) (map (\<lambda>x. c * x) (v :: vec))) = c * c * sum_list (map (\<lambda>x. x * x) v)"
  by (induction v) (auto simp: algebra_simps)

lemma l2norm_scale: "l2norm (map (\<lambda>x. c * x) v) = \<bar>c\<bar> * l2norm v"
proof -
  have "sqrt (c * c * sum_list (map (\<lambda>x. x * x) v)) = \<bar>c\<bar> * sqrt (sum_list (map (\<lambda>x. x * x) v))"
    by (simp add: real_sqrt_mult)
  then show ?thesis
    unfolding l2norm_def sum_squares_scale by simp
qed

lemma l2norm_divide: "0 < n \<Longrightarrow> l2norm (map (\<lambda>x. x / n) v) = l2norm v / n"
  using l2norm_scale [of "1 / n" v] by simp

lemma normalize_nonzero:
  assumes "\<exists>x \<in> set v. x \<noteq> 0"
  shows "normalize_l2 v = Inr (map (\<lambda>x. x / l2norm v) v)"
  using assms l2norm_pos_iff [of v] by (simp add: normalize_l2_def vdiv_def)

lemma normalize_zero:
  assumes "\<forall>x \<in> set v. x = 0"
  shows "normalize_l2 v = Inr v"
  using assms l2norm_zero_iff [of v] by (simp add: normalize_l2_def)


lemma normalize_unit_or_zero:
  assumes "normalize_l2 v = Inr w"
  shows "l2norm w = 1 \<or> (\<forall>x \<in> set w. x = 0)"
proof (cases "\<exists>x \<in> set v. x \<noteq> 0")
  case True
  then have pos: "0 < l2norm v" by (simp add: l2norm_pos_iff)
  from True assms have "w = map (\<lambda>x. x / l2norm v) v" by (simp add: normalize_nonzero)
  with pos show ?thesis by (simp add: l2norm_divide)
next
  case False
  with assms show ?thesis by (simp add: normalize_zero)
qed



section \<open>The online update\<close>







lemma find_put_user_embedding:
  "find (\<lambda>u. user_id u = uid) us = Some u \<Longrightarrow>
   find (\<lambda>u. user_id u = uid) (put_user_embedding uid v us) = Some (u\<lparr>user_embedding := Some v\<rparr>)"
  by (induction us) (auto split: if_splits)








section \<open>The batch recompute\<close>

text \<open>
  The online update and the batch recompute of a user with likes both end in the
  normalisation step, so what they store or return is of unit norm or all zero.
\<close>

lemma online_update_unit_or_zero:
  assumes "get_user d uid = Some u"
    and "get_post d pid = Some p"
    and "truthy (embedding p)"
    and "update_user_embedding_online m d uid pid itype learning_rate = Inr d'"
  shows "\<exists>w. get_user d' uid = Some (u\<lparr>user_embedding := Some w\<rparr>) \<and>
             (l2norm w = 1 \<or> (\<forall>x \<in> set w. x = 0))"
proof -
  from assms(3) obtain pe where pe: "embedding p = Some pe" "pe \<noteq> []"
    by (cases "embedding p") auto
  from assms(1,2,4) pe obtain v w where
    n: "normalize_l2 v = Inr w" and d': "d' = d\<lparr>users := put_user_embedding uid w (users d)\<rparr>"
    by (auto simp: update_user_embedding_online_def Let_def split: sum.splits)
  have "get_user d' uid = Some (u\<lparr>user_embedding := Some w\<rparr>)"
    using assms(1) by (simp add: d' get_user_def find_put_user_embedding)
  with normalize_unit_or_zero [OF n] show ?thesis by blast
qed

lemma batch_with_likes_unit_or_zero:
  assumes "filter (\<lambda>i. i_user_id i = uid \<and> interaction_type i = ''like'') (interactions d) \<noteq> []"
    and "generate_user_embedding m d uid = Inr (w, d')"
  shows "l2norm w = 1 \<or> (\<forall>x \<in> set w. x = 0)"
proof -
  from assms obtain v where "normalize_l2 v = Inr w"
    by (auto simp: generate_user_embedding_def Let_def split: sum.splits option.splits if_splits)
  then show ?thesis by (rule normalize_unit_or_zero)
qed

text \<open>
  Claim C6 at a concrete input: a catalog of two posts with the unit embeddings
  \<open>[1, 0]\<close> and \<open>[0, 1]\<close> and a user without interactions. The branch of the batch
  recompute for a user without likes returns before the normalisation step: its result
  is the plain mean \<open>[1/2, 1/2]\<close>, which is neither of unit norm nor the zero vector,
  and the database is left as it was.
\<close>

theorem generate_user_embedding_no_likes_not_normalized:
  "generate_user_embedding (mk_manager 2) db_two_posts ''u1'' = Inr ([1 / 2, 1 / 2], db_two_posts)
   \<and> l2norm [1 / 2, 1 / 2] \<noteq> 1 \<and> [1 / 2, 1 / 2] \<noteq> zeros 2"
  by (simp add: generate_user_embedding_def db_two_posts_def post_e1_def post_e2_def mk_db_def
      mk_post_def mk_user_def mk_manager_def mean0_def l2norm_def zeros_def upt_rec numeral_2_eq_2)

section \<open>The freshness term of the Scorer\<close>

text \<open>
  Claim C9. For a candidate whose \<^verbatim>\<open>post_age_hours\<close> is missing or exactly 0, the
  Scorer takes 24 as the age: the freshness term is \<open>max 0 (1 - 24/168)\<close>, the value a
  post of age 24 gets, and it is below the maximal freshness 1.
\<close>

theorem freshness_missing_or_zero_age:
  assumes "post_age_hours p = None \<or> post_age_hours p = Some 0"
  shows "hours_old p = 24 \<and> freshness_score p = max 0 (1 - 24 / 168) \<and> freshness_score p < 1"
  using assms by (auto simp: hours_old_def freshness_score_def)

theorem freshness_missing_or_zero_age_witness:
  "post_age_hours (mk_post ''p'' ''s'' 0 False True False (Some 0) None) = Some 0 \<and>
   hours_old (mk_post ''p'' ''s'' 0 False True False (Some 0) None) = 24 \<and>
   freshness_score (mk_post ''p'' ''s'' 0 False True False (Some 0) None) = 6 / 7 \<and>
   post_age_hours (mk_post ''p'' ''s'' 0 False True False None None) = None \<and>
   freshness_score (mk_post ''p'' ''s'' 0 False True False None None) = 6 / 7"
  using freshness_missing_or_zero_age [of "mk_post ''p'' ''s'' 0 False True False (Some 0) None"]
    freshness_missing_or_zero_age [of "mk_post ''p'' ''s'' 0 False True False None None"]
  by (simp add: mk_post_def)

section \<open>The Diversifier\<close>

lemma counts_agree_init: "counts_agree diversity_init"
  by (simp add: counts_agree_def diversity_init_def count_get_def category_size_def bucket_size_def)

lemma consider_post_None:
  assumes "counts_agree st"
  shows "consider_post n st p = None \<longleftrightarrow>
     nsfw p \<or> category_size (final_posts st) (subreddit p) \<ge> 2
       \<or> int (bucket_size (final_posts st) (content_type_of p)) \<ge> n div 2"
  using assms by (auto simp: consider_post_def counts_agree_def)

lemma consider_post_Some:
  assumes "counts_agree st" and "consider_post n st p = Some st'"
  shows "counts_agree st' \<and> final_posts st' = final_posts st @ [p]"
  using assms
  by (auto simp: consider_post_def counts_agree_def count_get_def category_size_def bucket_size_def
      split: if_splits)

lemma select_posts_greedy_pass:
  assumes "counts_agree st"
  shows "final_posts (select_posts n scored st) = greedy_pass (n div 2) n scored (final_posts st)"
  using assms
proof (induction scored arbitrary: st)
  case Nil
  show ?case by simp
next
  case (Cons x scored)
  obtain p sc where x: "x = (p, sc)" by (cases x)
  show ?case
  proof (cases "consider_post n st p")
    case None
    with Cons x consider_post_None [OF Cons.prems, of n p] show ?thesis by auto
  next
    case (Some st')
    from consider_post_Some [OF Cons.prems Some]
    have a: "counts_agree st'" and f: "final_posts st' = final_posts st @ [p]" by simp_all
    from Some consider_post_None [OF Cons.prems, of n p]
    have no: "\<not> nsfw p" "\<not> category_size (final_posts st) (subreddit p) \<ge> 2"
      "\<not> int (bucket_size (final_posts st) (content_type_of p)) \<ge> n div 2" by auto
    show ?thesis
      using Cons.IH [OF a] x Some f no by simp
  qed
qed


lemma bucket_size_snoc:
  "bucket_size (accepted @ [p]) t = bucket_size accepted t + (if content_type_of p = t then 1 else 0)"
  by (simp add: bucket_size_def)

lemma greedy_pass_invariant:
  assumes "P accepted"
    and step: "\<And>acc p. P acc \<Longrightarrow> \<not> nsfw p \<Longrightarrow> \<not> category_size acc (subreddit p) \<ge> 2 \<Longrightarrow>
                 \<not> int (bucket_size acc (content_type_of p)) \<ge> cap \<Longrightarrow> P (acc @ [p])"
  shows "P (greedy_pass cap n scored accepted)"
  using assms(1)
proof (induction scored arbitrary: accepted)
  case Nil
  then show ?case by simp
next
  case (Cons x scored)
  obtain p sc where x: "x = (p, sc)" by (cases x)
  show ?case
  proof (cases "nsfw p \<or> category_size accepted (subreddit p) \<ge> 2
      \<or> int (bucket_size accepted (content_type_of p)) \<ge> cap")
    case True
    then have "greedy_pass cap n (x # scored) accepted = greedy_pass cap n scored accepted"
      using x by auto
    with Cons show ?thesis by simp
  next
    case False
    then have ext: "P (accepted @ [p])"
      using Cons.prems step by blast
    have "greedy_pass cap n (x # scored) accepted = accepted @ [p] \<or>
          greedy_pass cap n (x # scored) accepted = greedy_pass cap n scored (accepted @ [p])"
      using False x by simp
    then show ?thesis
      using ext Cons.IH [OF ext] by auto
  qed
qed



lemma greedy_pass_bucket:
  assumes "\<forall>t. int (bucket_size accepted t) \<le> max 0 cap"
  shows "\<forall>t. int (bucket_size (greedy_pass cap n scored accepted) t) \<le> max 0 cap"
  by (rule greedy_pass_invariant [where P = "\<lambda>acc. \<forall>t. int (bucket_size acc t) \<le> max 0 cap", OF assms])
    (auto simp: bucket_size_snoc)

lemma greedy_pass_length:
  assumes "int (length accepted) < n \<or> cap \<le> 0"
  shows "int (length (greedy_pass cap n scored accepted)) \<le> max (int (length accepted)) n"
  using assms
proof (induction scored arbitrary: accepted)
  case Nil
  then show ?case by simp
next
  case (Cons x scored)
  obtain p sc where x: "x = (p, sc)" by (cases x)
  show ?case
  proof (cases "nsfw p \<or> category_size accepted (subreddit p) \<ge> 2
      \<or> int (bucket_size accepted (content_type_of p)) \<ge> cap")
    case True
    then have "greedy_pass cap n (x # scored) accepted = greedy_pass cap n scored accepted"
      using x by auto
    with Cons show ?thesis by simp
  next
    case False
    then have "0 < cap" by linarith
    with Cons.prems have lt: "int (length accepted) < n" by simp
    show ?thesis
    proof (cases "int (length (accepted @ [p])) \<ge> n")
      case True
      then have "greedy_pass cap n (x # scored) accepted = accepted @ [p]"
        using False x by simp
      with lt show ?thesis by simp
    next
      case stop: False
      then have r: "greedy_pass cap n (x # scored) accepted = greedy_pass cap n scored (accepted @ [p])"
        using False x by simp
      from stop have "int (length (accepted @ [p])) < n \<or> cap \<le> 0" by simp
      from Cons.IH [OF this] stop show ?thesis unfolding r by simp
    qed
  qed
qed

lemma length_substitute: "length (substitute fp zs) = length fp"
  by (induction fp zs rule: substitute.induct) auto




lemma floor_half: "\<lfloor>real_of_int n / 2\<rfloor> = n div 2"
  by (metis floor_divide_of_int_eq of_int_numeral)







text \<open>
  Claim C5, as stated, fails: the cap of the code is \<^verbatim>\<open>num_items // 2\<close>, the floor and
  not the ceiling of half the requested count. For a requested count of 3 and two safe
  text posts of different categories, the code accepts the first and skips the second
  while the text bucket holds 1 item; with the cap \<open>ceil(3/2) = 2\<close> of the claim the
  greedy pass accepts both.
\<close>

theorem content_type_cap_counterexample:
  "final_posts (select_posts 3 [(post_a1, 2), (post_b1, 1)] diversity_init) = [post_a1]
   \<and> greedy_pass \<lceil>3 / 2 :: real\<rceil> 3 [(post_a1, 2), (post_b1, 1)] [] = [post_a1, post_b1]
   \<and> bucket_size [post_a1] (content_type_of post_b1) = 1 \<and> \<lceil>3 / 2 :: real\<rceil> = 2"
  by (simp add: diversity_init_def consider_post_def count_get_def content_type_of_def
     category_size_def bucket_size_def post_a1_def post_b1_def mk_post_def)

text \<open>
  Claim C5, amended. For every requested count the loop of the Diversifier computes the
  greedy pass of the specification with the per-bucket cap \<open>floor(requested_count/2)\<close>:
  a candidate that is safe and whose category holds fewer than 2 accepted items is
  skipped exactly when its bucket already holds at least that many accepted items. No
  bucket of the accepted list exceeds the cap, and for odd requested count the cap is
  \<open>(requested_count - 1)/2\<close>.
\<close>

theorem content_type_cap_is_floor:
  "final_posts (select_posts n scored diversity_init) = greedy_pass \<lfloor>real_of_int n / 2\<rfloor> n scored [] \<and>
   (\<forall>t. int (bucket_size (final_posts (select_posts n scored diversity_init)) t)
          \<le> max 0 \<lfloor>real_of_int n / 2\<rfloor>) \<and>
   (odd n \<longrightarrow> \<lfloor>real_of_int n / 2\<rfloor> = (n - 1) div 2)"
proof -
  have g: "final_posts (select_posts n scored diversity_init) = greedy_pass (n div 2) n scored []"
    using select_posts_greedy_pass [OF counts_agree_init, of n scored]
    by (simp add: diversity_init_def)
  have b: "\<forall>t. int (bucket_size (greedy_pass (n div 2) n scored []) t) \<le> max 0 (n div 2)"
    by (rule greedy_pass_bucket) (simp add: bucket_size_def)
  have o: "odd n \<longrightarrow> n div 2 = (n - 1) div 2"
    by presburger
  from g b o show ?thesis by (simp add: floor_half)
qed

theorem content_type_cap_is_floor_witness:
  "odd (3 :: int) \<and> \<lfloor>real_of_int 3 / 2\<rfloor> = (1 :: int) \<and>
   final_posts (select_posts 3 [(post_a1, 2), (post_b1, 1)] diversity_init)
     = greedy_pass 1 3 [(post_a1, 2), (post_b1, 1)] []"
  using content_type_cap_is_floor [of 3 "[(post_a1, 2), (post_b1, 1)]"] by simp

section \<open>The Candidate Generator\<close>

lemma unique_candidates_props:
  "distinct (map post_id (unique_candidates S ps)) \<and>
   (\<forall>p \<in> set (unique_candidates S ps). post_id p \<notin> S \<and> p \<in> set ps)"
proof (induction ps arbitrary: S)
  case Nil
  show ?case by simp
next
  case (Cons a ps)
  show ?case
    using Cons [of S] Cons [of "insert (post_id a) S"] by auto
qed

lemma get_post_id: "get_post d pid = Some p \<Longrightarrow> post_id p = pid"
  by (auto simp: get_post_def find_Some_iff)

lemma similarity_candidates_unseen:
  "\<forall>p \<in> set (similarity_candidates d seen hits). post_id p \<notin> seen"
  by (induction d seen hits rule: similarity_candidates.induct)
     (auto split: option.splits dest: get_post_id)

lemma trending_candidates_unseen:
  "\<forall>p \<in> set (trending_candidates d seen now k). post_id p \<notin> seen"
  by (auto simp: trending_candidates_def order_by_desc_def Let_def dest!: in_set_takeD)

lemma subreddit_candidates_unseen:
  "\<forall>p \<in> set (subreddit_candidates d seen u). post_id p \<notin> seen"
  by (auto simp: subreddit_candidates_def order_by_desc_def Let_def dest!: in_set_takeD)

lemma exploration_candidates_unseen:
  "\<forall>p \<in> set (exploration_candidates d seen rnd k). post_id p \<notin> seen"
  by (auto simp: exploration_candidates_def order_by_random_def dest!: in_set_takeD)

lemma pool_distinct_unseen:
  assumes "\<forall>p \<in> set candidates. post_id p \<notin> seen"
  shows "distinct (map post_id (take n (unique_candidates {} candidates))) \<and>
         (\<forall>p \<in> set (take n (unique_candidates {} candidates)). post_id p \<notin> seen)"
proof -
  have "distinct (take n (map post_id (unique_candidates {} candidates)))"
    using unique_candidates_props [of "{}" candidates] by (intro distinct_take) simp
  moreover have "\<forall>p \<in> set (take n (unique_candidates {} candidates)). p \<in> set candidates"
    using unique_candidates_props [of "{}" candidates] by (auto dest: in_set_takeD)
  ultimately show ?thesis using assms by (auto simp: take_map)
qed

lemma strategies_unseen:
  assumes "\<forall>p \<in> set sim. post_id p \<notin> seen"
  shows "\<forall>p \<in> set (sim @ trending_candidates d1 seen now k3 @ subreddit_candidates d1 seen u
            @ exploration_candidates d1 seen rnd k1). post_id p \<notin> seen"
  using assms trending_candidates_unseen [of d1 seen now k3] subreddit_candidates_unseen [of d1 seen u]
    exploration_candidates_unseen [of d1 seen rnd k1]
  by auto

text \<open>
  Claim C7. For a user with a profile row, the pool returned by the Candidate Generator
  holds no two posts of the same id and no post whose id is in the user's interaction
  log. Only the branch for a user without a profile row skips the seen-set: it returns the
  first \<open>n\<close> posts by raw score, descending.
\<close>

theorem candidate_pool_distinct_unseen:
  "(get_user d uid = Some u \<longrightarrow>
      get_candidates model now rnd m dk d uid n = Inr (cands, m', dk', d') \<longrightarrow>
      distinct (map post_id cands) \<and> (\<forall>p \<in> set cands. post_id p \<notin> seen_post_ids d uid)) \<and>
   (get_user d uid = None \<longrightarrow>
      get_candidates model now rnd m dk d uid n =
        Inr (take n (order_by_desc (\<lambda>p. real_of_int (score p)) (posts d)), m, dk, d))"
proof -
  let ?seen = "seen_post_ids d uid"
  let ?pool = "\<lambda>sim. take n (unique_candidates {} (sim
          @ trending_candidates d' ?seen now (nat (py_int (real n * 0.3)))
          @ subreddit_candidates d' ?seen u
          @ exploration_candidates d' ?seen rnd (nat (py_int (real n * 0.1)))))"
  have known: "distinct (map post_id cands) \<and> (\<forall>p \<in> set cands. post_id p \<notin> ?seen)"
    if u: "get_user d uid = Some u"
      and r: "get_candidates model now rnd m dk d uid n = Inr (cands, m', dk', d')"
  proof -
    have "\<exists>sim. (\<forall>p \<in> set sim. post_id p \<notin> ?seen) \<and> cands = ?pool sim"
    proof (cases "truthy (user_embedding u)")
      case False
      with u r have "cands = ?pool []"
        by (auto simp: get_candidates_def Let_def)
      then show ?thesis by (intro exI [of _ "[]"]) simp
    next
      case True
      with u r obtain hits ev where
        "find_similar_posts model m dk d (the (user_embedding u)) (nat (py_int (real n * 0.4)))
           = Inr (hits, ev, m', dk', d')"
        and "cands = ?pool (similarity_candidates d' ?seen hits)"
        by (auto simp: get_candidates_def Let_def split: sum.splits prod.splits)
      then show ?thesis
        using similarity_candidates_unseen [of d' ?seen hits] by blast
    qed
    then obtain sim where sim: "\<forall>p \<in> set sim. post_id p \<notin> ?seen" and c: "cands = ?pool sim"
      by blast
    from pool_distinct_unseen [OF strategies_unseen [OF sim], of n]
    show ?thesis by (simp add: c)
  qed
  have unknown: "get_candidates model now rnd m dk d uid n =
        Inr (take n (order_by_desc (\<lambda>p. real_of_int (score p)) (posts d)), m, dk, d)"
    if "get_user d uid = None"
    using that by (simp add: get_candidates_def)
  from known unknown show ?thesis by blast
qed

lemma known_pool:
  "get_candidates model_const 0 rnd_unsafe_first (mk_manager 2) disk_empty db_known ''u1'' 10
     = Inr ([post_a2\<lparr>embedding := Some [1, 0]\<rparr>, post_b1\<lparr>embedding := Some [1, 0]\<rparr>],
            generate_post_embeddings model_const (mk_manager 2) disk_empty db_known)"
  by (simp add: get_candidates_def db_known_def get_user_def get_post_def mk_user_def seen_post_ids_def
      interaction_seen_def trending_candidates_def subreddit_candidates_def
      exploration_candidates_def order_by_desc_def order_by_random_def rnd_unsafe_first_def
      find_similar_posts_def load_index_def generate_post_embeddings_def faiss_search_def
      faiss_normalize_L2_def inner_product_def l2norm_def model_const_def mk_manager_def
      disk_empty_def upt_rec
      py_int_def post_a1_def post_a2_def post_b1_def mk_post_def Let_def)

theorem candidate_pool_distinct_unseen_witness:
  "get_user db_known ''u1'' = Some (mk_user ''u1'' (Some [1, 0]) (Some [(''s'', 1)]) (1 / 2)) \<and>
   get_candidates model_const 0 rnd_unsafe_first (mk_manager 2) disk_empty db_known ''u1'' 10
     = Inr ([post_a2\<lparr>embedding := Some [1, 0]\<rparr>, post_b1\<lparr>embedding := Some [1, 0]\<rparr>],
            generate_post_embeddings model_const (mk_manager 2) disk_empty db_known) \<and>
   seen_post_ids db_known ''u1'' = {''a1''} \<and>
   distinct (map post_id [post_a2\<lparr>embedding := Some [1, 0]\<rparr>, post_b1\<lparr>embedding := Some [1, 0]\<rparr>]) \<and>
   post_id (post_a2\<lparr>embedding := Some [1, 0]\<rparr>) \<notin> seen_post_ids db_known ''u1'' \<and>
   post_id (post_b1\<lparr>embedding := Some [1, 0]\<rparr>) \<notin> seen_post_ids db_known ''u1''"
proof -
  obtain m' dk' d' where
    g: "generate_post_embeddings model_const (mk_manager 2) disk_empty db_known = (m', dk', d')"
    by (cases "generate_post_embeddings model_const (mk_manager 2) disk_empty db_known")
  have h1: "get_user db_known ''u1'' = Some (mk_user ''u1'' (Some [1, 0]) (Some [(''s'', 1)]) (1 / 2))"
    by (simp add: db_known_def get_user_def mk_user_def)
  have h2: "get_candidates model_const 0 rnd_unsafe_first (mk_manager 2) disk_empty db_known ''u1'' 10
     = Inr ([post_a2\<lparr>embedding := Some [1, 0]\<rparr>, post_b1\<lparr>embedding := Some [1, 0]\<rparr>], m', dk', d')"
    by (simp add: known_pool g)
  have s: "seen_post_ids db_known ''u1'' = {''a1''}"
    by (simp add: seen_post_ids_def db_known_def interaction_seen_def)
  from candidate_pool_distinct_unseen [THEN conjunct1, rule_format, OF h1 h2]
  show ?thesis
    using h1 s by (simp add: known_pool)
qed

section \<open>The Vector Store\<close>








section \<open>The feed of a user without a profile\<close>

lemma score_all_no_user: "\<exists>scored. score_all None ps = Inr scored \<and> length scored = length ps"
  by (induction ps) (auto simp: score_post_def Let_def)

lemma apply_business_rules_length:
  "int (length (apply_business_rules rnd_idx rnd_post d scored uid n)) \<le> max 0 n"
proof -
  have g: "final_posts (select_posts n scored diversity_init) = greedy_pass (n div 2) n scored []"
    using select_posts_greedy_pass [OF counts_agree_init, of n scored]
    by (simp add: diversity_init_def)
  have "int (length ([] :: post list)) < n \<or> n div 2 \<le> 0" by (cases "0 < n") auto
  from greedy_pass_length [OF this, of scored]
  have "int (length (greedy_pass (n div 2) n scored [])) \<le> max 0 n" by simp
  then show ?thesis
    by (simp add: apply_business_rules_def Let_def g length_substitute)
qed

lemma top_by_score:
  fixes rows :: "post list"
  defines "ys \<equiv> order_by_desc (\<lambda>p. real_of_int (score p)) rows"
  shows "length (take n ys) = min n (length rows)"
    and "mset (take n ys @ drop n ys) = mset rows"
    and "\<forall>p \<in> set (take n ys). \<forall>q \<in> set (drop n ys). score q \<le> score p"
    and "sorted_wrt (\<lambda>p q. score q \<le> score p) (take n ys)"
    and "filter (\<lambda>p. score p = k) (take n ys) @ filter (\<lambda>p. score p = k) (drop n ys)
           = filter (\<lambda>p. score p = k) rows"
proof -
  let ?f = "\<lambda>p :: post. - real_of_int (score p)"
  have ys: "ys = sort_key ?f rows" by (simp add: ys_def order_by_desc_def)
  show "length (take n ys) = min n (length rows)" by (simp add: ys min.commute)
  show "mset (take n ys @ drop n ys) = mset rows" by (simp add: ys)
  have "sorted (map ?f ys)" unfolding ys by (rule sorted_sort_key)
  then have sw: "sorted_wrt (\<lambda>p q. score q \<le> score p) ys"
    by (simp add: sorted_map)
  then have "sorted_wrt (\<lambda>p q. score q \<le> score p) (take n ys @ drop n ys)" by simp
  then show "\<forall>p \<in> set (take n ys). \<forall>q \<in> set (drop n ys). score q \<le> score p"
    unfolding sorted_wrt_append by blast
  from sw show "sorted_wrt (\<lambda>p q. score q \<le> score p) (take n ys)" by (rule sorted_wrt_take)
  have "filter (\<lambda>p. score p = k) (take n ys) @ filter (\<lambda>p. score p = k) (drop n ys)
      = filter (\<lambda>p. score p = k) ys"
    by (metis append_take_drop_id filter_append)
  also have "\<dots> = filter (\<lambda>p. ?f p = - real_of_int k) (sort_key ?f rows)" by (simp add: ys)
  also have "\<dots> = filter (\<lambda>p. ?f p = - real_of_int k) rows" by (rule sort_key_stable)
  finally show "filter (\<lambda>p. score p = k) (take n ys) @ filter (\<lambda>p. score p = k) (drop n ys)
           = filter (\<lambda>p. score p = k) rows" by simp
qed

text \<open>
  Claim C4, as stated, fails: for a catalog of ten posts of one category and a user
  without a profile, the feed for a requested count of 10 holds two posts, since the
  pool goes through the Scorer and the Diversifier like any other.
\<close>

theorem new_user_feed_counterexample:
  "get_recommendations model_const 0 rnd_unsafe_first rnd_in_order rnd_unsafe_first
      (mk_manager 2) disk_empty (mk_db ten_posts []) ''new'' 10
     = Inr ([mk_post ''a'' ''s'' 0 False True False None None,
             mk_post ''b'' ''s'' 0 False True False None None],
            mk_manager 2, disk_empty, mk_db ten_posts [])
   \<and> length (posts (mk_db ten_posts [])) = 10
   \<and> get_user (mk_db ten_posts []) ''new'' = None"
  by (simp add: get_recommendations_def get_candidates_def score_candidates_def score_post_def
      engagement_score_def freshness_score_def hours_old_def order_by_desc_def
      apply_business_rules_def num_exploration_def py_int_def
      diversity_init_def consider_post_def count_get_def content_type_of_def
      get_user_def mk_db_def ten_posts_def mk_post_def Let_def)

text \<open>
  Claim C4, amended. For a user without a profile the Candidate Generator returns the
  \<open>min n (size of the catalog)\<close> posts of highest raw score, in descending order of raw
  score, posts of equal score in catalog order: the rest of the catalog has no higher
  score, and among the posts of any one score the pool holds a prefix of the catalog's.
  \<^verbatim>\<open>get_recommendations\<close> then returns, without error and without change of state, a
  list of at most the requested count of posts, selected from the pool of size 100 by
  the Scorer and the Diversifier.
\<close>

theorem new_user_pool_is_top_by_score:
  assumes "get_user d uid = None"
  shows "\<exists>pool rest out.
           get_candidates model now rnd m dk d uid n = Inr (pool, m, dk, d) \<and>
           length pool = min n (length (posts d)) \<and>
           mset (pool @ rest) = mset (posts d) \<and>
           (\<forall>p \<in> set pool. \<forall>q \<in> set rest. score q \<le> score p) \<and>
           sorted_wrt (\<lambda>p q. score q \<le> score p) pool \<and>
           (\<forall>k. filter (\<lambda>p. score p = k) pool @ filter (\<lambda>p. score p = k) rest
                  = filter (\<lambda>p. score p = k) (posts d)) \<and>
           get_recommendations model now rnd rnd_idx rnd_post m dk d uid num_items = Inr (out, m, dk, d) \<and>
           int (length out) \<le> max 0 num_items"
proof -
  let ?ys = "order_by_desc (\<lambda>p. real_of_int (score p)) (posts d)"
  have c: "\<And>k. get_candidates model now rnd m dk d uid k = Inr (take k ?ys, m, dk, d)"
    using assms by (simp add: get_candidates_def)
  obtain scored where sc: "score_all None (take 100 ?ys) = Inr scored"
    using score_all_no_user by blast
  let ?out = "if take 100 ?ys = [] then []
     else apply_business_rules rnd_idx rnd_post d (sort_key (\<lambda>x. - snd x) scored) uid num_items"
  have r: "get_recommendations model now rnd rnd_idx rnd_post m dk d uid num_items = Inr (?out, m, dk, d)"
    using assms sc by (simp add: get_recommendations_def c score_candidates_def)
  have l: "int (length ?out) \<le> max 0 num_items"
    using apply_business_rules_length by simp
  show ?thesis
    using c [of n] top_by_score [where rows = "posts d" and n = n] r l
    by (intro exI [of _ "take n ?ys"] exI [of _ "drop n ?ys"] exI [of _ ?out]) blast
qed

theorem new_user_pool_is_top_by_score_witness:
  "get_user (mk_db ten_posts []) ''new'' = None \<and>
   (\<exists>pool rest out.
      get_candidates model_const 0 rnd_unsafe_first (mk_manager 2) disk_empty (mk_db ten_posts []) ''new'' 10
        = Inr (pool, mk_manager 2, disk_empty, mk_db ten_posts []) \<and>
      length pool = min 10 (length (posts (mk_db ten_posts []))) \<and>
      mset (pool @ rest) = mset (posts (mk_db ten_posts [])) \<and>
      (\<forall>p \<in> set pool. \<forall>q \<in> set rest. score q \<le> score p) \<and>
      sorted_wrt (\<lambda>p q. score q \<le> score p) pool \<and>
      (\<forall>k. filter (\<lambda>p. score p = k) pool @ filter (\<lambda>p. score p = k) rest
             = filter (\<lambda>p. score p = k) (posts (mk_db ten_posts []))) \<and>
      get_recommendations model_const 0 rnd_unsafe_first rnd_in_order rnd_unsafe_first
          (mk_manager 2) disk_empty (mk_db ten_posts []) ''new'' 10
        = Inr (out, mk_manager 2, disk_empty, mk_db ten_posts []) \<and>
      int (length out) \<le> max 0 10)"
proof -
  have h: "get_user (mk_db ten_posts []) ''new'' = None"
    by (simp add: get_user_def mk_db_def)
  show ?thesis
    by (intro conjI h new_user_pool_is_top_by_score [OF h])
qed

end
